theory Spec2Isabelle
  imports Complex_Main "HOL-Library.Sublist"
begin

section \<open>The plotting script \<^verbatim>\<open>generate_plot.py\<close>\<close>

text \<open>
  The script reads a list of team records, evaluates a normal density per team on a fixed
  grid, rescales it, draws it with a style chosen from the loop index, fixes the axes and
  saves the figure. The model below follows the script statement by statement. Python
  floats are idealised as real numbers, extended by the one non-number the script can
  produce from real inputs (\<open>nan\<close>, which \<^verbatim>\<open>scipy.stats.norm.pdf\<close> returns for a scale
  that is not positive).
\<close>

subsection \<open>Input records\<close>

text \<open>
  One element of \<^verbatim>\<open>teams\<close>, as \<^verbatim>\<open>json.load\<close> yields it for a file of the documented
  schema: the four keys the loop body reads.
\<close>

record team =
  rank :: int
  team_name :: string
  mean_elo :: real
  std_dev :: real

subsection \<open>Numbers\<close>

datatype npfloat = Fin real | NaN

text \<open>Multiplying an array element by a Python number: \<open>nan\<close> propagates.\<close>

fun fmul :: "npfloat \<Rightarrow> real \<Rightarrow> npfloat" where
  "fmul (Fin a) r = Fin (a * r)"
| "fmul NaN r = NaN"

text \<open>Comparing two array elements: every comparison with \<open>nan\<close> is false.\<close>

fun fle :: "npfloat \<Rightarrow> npfloat \<Rightarrow> bool" where
  "fle (Fin a) (Fin b) = (a \<le> b)"
| "fle _ _ = False"

text \<open>
  \<^verbatim>\<open>stats.norm.pdf(x, loc, scale)\<close>: the standard normal density at \<open>(x - loc) / scale\<close>,
  divided by \<open>scale\<close>; for \<open>scale \<le> 0\<close> the library raises nothing and returns \<open>nan\<close>.
\<close>

definition norm_pdf :: "real \<Rightarrow> real \<Rightarrow> real \<Rightarrow> npfloat" where
  "norm_pdf x loc scale =
     (if 0 < scale
      then Fin (exp (- (((x - loc) / scale)\<^sup>2) / 2) / sqrt (2 * pi) / scale)
      else NaN)"

text \<open>The density formula as the specification writes it.\<close>

definition spec_pdf :: "real \<Rightarrow> real \<Rightarrow> real \<Rightarrow> real" where
  "spec_pdf x m s = exp (- ((x - m)\<^sup>2) / (2 * s\<^sup>2)) / (s * sqrt (2 * pi))"

text \<open>Line 56: \<^verbatim>\<open>pdf_scaled = pdf * std * 2.5\<close>, for one element of the array.\<close>

definition pdf_scaled :: "real \<Rightarrow> real \<Rightarrow> real \<Rightarrow> npfloat" where
  "pdf_scaled x mean std = fmul (fmul (norm_pdf x mean std) std) 2.5"

text \<open>
  Line 45: \<^verbatim>\<open>x = np.linspace(1200, 2600, 500)\<close>, the evaluation grid (the array \<^verbatim>\<open>x\<close>
  of the script).
\<close>

definition linspace :: "real \<Rightarrow> real \<Rightarrow> nat \<Rightarrow> real list" where
  "linspace start stop num =
     map (\<lambda>j. start + real j * ((stop - start) / real (num - 1))) [0..<num]"

definition x_grid :: "real list" where
  "x_grid = linspace 1200 2600 500"

subsection \<open>Fixed tables\<close>

text \<open>Lines 18 to 39: the palette.\<close>

definition colors :: "string list" where
  "colors =
     [''#1f77b4'', ''#ff7f0e'', ''#2ca02c'', ''#d62728'', ''#9467bd'',
      ''#8c564b'', ''#e377c2'', ''#7f7f7f'', ''#bcbd22'', ''#17becf'',
      ''#aec7e8'', ''#ffbb78'', ''#98df8a'', ''#ff9896'', ''#c5b0d5'',
      ''#c49c94'', ''#f7b6d2'', ''#c7c7c7'', ''#dbdb8d'', ''#9edae5'']"

text \<open>Line 42.\<close>

definition line_styles :: "string list" where
  "line_styles = [''-'', ''--'', ''-.'', '':'']"

text \<open>
  Lines 67 to 72: the literals removed from the team name, in the order in which the
  chained \<^verbatim>\<open>replace\<close> calls remove them.
\<close>

definition suffixes :: "string list" where
  "suffixes =
     ['' Crimson Tide'', '' Volunteers'', '' Blue Devils'', '' Spartans'', '' Cougars'',
      '' Wildcats'', '' Red Storm'', '' Tigers'', '' Terrapins'', '' Owls'',
      '' Wolverines'', '' Aggies'', '' Razorbacks'', '' Rebels'', '' Red Raiders'',
      '' Gators'']"

subsection \<open>Strings\<close>

text \<open>
  Python's \<^verbatim>\<open>s.replace(old, new)\<close>: the occurrences of \<open>old\<close> are found from left to
  right, each search starting behind the previous occurrence, and the result is not searched
  again. An empty \<open>old\<close> matches before every character and at the end.
\<close>

fun replace :: "string \<Rightarrow> string \<Rightarrow> string \<Rightarrow> string" where
  "replace [] old new = (if old = [] then new else [])"
| "replace (c # cs) old new =
     (if old = [] then new @ c # replace cs old new
      else if prefix old (c # cs) then new @ replace (drop (length old) (c # cs)) old new
      else c # replace cs old new)"

text \<open>Lines 67 to 72: one \<^verbatim>\<open>replace(tok, '')\<close> after the other.\<close>

definition short_name :: "string \<Rightarrow> string" where
  "short_name n = foldl (\<lambda>s tok. replace s tok []) n suffixes"

text \<open>How an f-string renders a Python integer: decimal digits, a minus sign if negative.\<close>

definition digit_char :: "nat \<Rightarrow> char" where
  "digit_char d = char_of (48 + d)"

fun digits :: "nat \<Rightarrow> string" where
  "digits n =
     (if n < 10 then [digit_char n] else digits (n div 10) @ [digit_char (n mod 10)])"

definition str_int :: "int \<Rightarrow> string" where
  "str_int k = (if k < 0 then CHR ''-'' # digits (nat (- k)) else digits (nat k))"

text \<open>Line 74: \<^verbatim>\<open>label = f"{team['rank']}. {name}"\<close>.\<close>

definition label_of :: "team \<Rightarrow> string" where
  "label_of t = str_int (rank t) @ ''. '' @ short_name (team_name t)"

subsection \<open>The figure\<close>

text \<open>What \<^verbatim>\<open>ax.plot\<close> (line 76) and \<^verbatim>\<open>ax.fill_between\<close> (line 81) add to the axes.\<close>

record line2d =
  xdata :: "real list"
  ydata :: "npfloat list"
  color :: string
  linestyle :: string
  linewidth :: real
  alpha :: real
  label :: string

record poly =
  poly_xdata :: "real list"
  poly_ydata :: "npfloat list"
  poly_alpha :: real
  poly_color :: string

text \<open>
  The state the script builds: the artists on the axes, the axis limits, the file written
  by \<^verbatim>\<open>plt.savefig\<close> and the lines printed.
\<close>

record figure =
  lines :: "line2d list"
  collections :: "poly list"
  xlim :: "real \<times> real"
  ylim :: "real \<times> real"
  saved :: "string option"
  stdout :: "string list"

text \<open>Line 14: a fresh figure; empty axes show the unit interval on both axes.\<close>

definition subplots :: figure where
  "subplots = \<lparr>lines = [], collections = [], xlim = (0, 1), ylim = (0, 1),
     saved = None, stdout = []\<rparr>"

subsection \<open>The loop, lines 48 to 81\<close>

definition plot_team :: "nat \<Rightarrow> team \<Rightarrow> figure \<Rightarrow> figure" where
  "plot_team i t fig =
     (let mean = mean_elo t;
          std = std_dev t;
          curve = map (\<lambda>x. pdf_scaled x mean std) x_grid;
          c = colors ! (i mod length colors);
          ls = line_styles ! ((i div 10) mod length line_styles);
          lw = (if i < 6 then 2.5 else 1.8);
          a = (if i < 6 then 0.9 else 0.7);
          lbl = label_of t;
          fig1 = fig\<lparr>lines := lines fig @
                   [\<lparr>xdata = x_grid, ydata = curve, color = c, linestyle = ls,
                     linewidth = lw, alpha = a, label = lbl\<rparr>]\<rparr>
      in if i < 3
         then fig1\<lparr>collections := collections fig1 @
                [\<lparr>poly_xdata = x_grid, poly_ydata = curve, poly_alpha = 0.1,
                  poly_color = c\<rparr>]\<rparr>
         else fig1)"

text \<open>\<^verbatim>\<open>for i, team in enumerate(teams)\<close>, from index \<open>i\<close> on.\<close>

fun plot_teams :: "nat \<Rightarrow> team list \<Rightarrow> figure \<Rightarrow> figure" where
  "plot_teams i [] fig = fig"
| "plot_teams i (t # ts) fig = plot_teams (Suc i) ts (plot_team i t fig)"

subsection \<open>The whole script\<close>

text \<open>
  The script defines and raises no exception. The two names below are the errors the
  specification speaks of; the model never constructs them, as the script does not.
\<close>

datatype error = EmptyInputError | InvalidParameterError

text \<open>
  Lines 98 and 99 fix the axis limits; line 99 reads the upper limit the axes report at
  that moment, \<^verbatim>\<open>ax.get_ylim()[1]\<close>, which the plotting library computes from the
  artists drawn so far. That library function is the parameter \<open>get_ylim\<close>. Lines 108 and
  110 save the figure and print the confirmation. The decorations of lines 84 to 95 and
  101 to 107 (axis labels, title, legend, grid, annotation, layout) change none of the
  fields modelled here.
\<close>

definition set_limits :: "(figure \<Rightarrow> real \<times> real) \<Rightarrow> figure \<Rightarrow> figure" where
  "set_limits get_ylim fig =
     (let fig1 = fig\<lparr>xlim := (1200, 2600)\<rparr>
      in fig1\<lparr>ylim := (0, snd (get_ylim fig1) * 1.05)\<rparr>)"

definition savefig :: "figure \<Rightarrow> figure" where
  "savefig fig =
     fig\<lparr>saved := Some ''elo_distributions.png'',
         stdout := stdout fig @ [''Saved elo_distributions.png'']\<rparr>"

definition main :: "(figure \<Rightarrow> real \<times> real) \<Rightarrow> team list \<Rightarrow> error + figure" where
  "main get_ylim teams = Inr (savefig (set_limits get_ylim (plot_teams 0 teams subplots)))"

subsection \<open>The library's default limits\<close>

text \<open>
  What \<^verbatim>\<open>ax.get_ylim()\<close> returns under the plotting library's default settings: axes
  without artists keep the limits \<open>(0, 1)\<close>; otherwise the limits are the interval of
  the finite data (a curve's finite values; for a filled region also its baseline \<open>0\<close>),
  widened by the default margin of 5 percent of its length at each end, and
  \<open>(-0.055, 0.055)\<close> when no artist has a finite value. The library's special treatment
  of a data interval of (nearly) zero length is left out: a curve with a positive spread
  takes more than one value on the grid.
\<close>

definition fin_values :: "npfloat list \<Rightarrow> real list" where
  "fin_values ys = concat (map (\<lambda>v. case v of Fin r \<Rightarrow> [r] | NaN \<Rightarrow> []) ys)"

definition data_values :: "figure \<Rightarrow> real list" where
  "data_values fig =
     concat (map (\<lambda>l. fin_values (ydata l)) (lines fig)) @
     concat (map (\<lambda>p. if fin_values (poly_ydata p) = [] then []
                        else 0 # fin_values (poly_ydata p)) (collections fig))"

definition default_get_ylim :: "figure \<Rightarrow> real \<times> real" where
  "default_get_ylim fig =
     (if lines fig = [] \<and> collections fig = [] then (0, 1)
      else if data_values fig = [] then (- 0.055, 0.055)
      else let d0 = Min (set (data_values fig));
               d1 = Max (set (data_values fig));
               m = 0.05 * (d1 - d0)
           in (d0 - m, d1 + m))"

subsection \<open>The artists of one iteration\<close>

text \<open>
  The line and the filled region that iteration \<open>i\<close> of the loop adds for record \<open>t\<close>,
  written out with the lengths of the two tables (20 and 4) inserted.
\<close>

definition line_of :: "nat \<Rightarrow> team \<Rightarrow> line2d" where
  "line_of i t =
     \<lparr>xdata = x_grid,
      ydata = map (\<lambda>x. pdf_scaled x (mean_elo t) (std_dev t)) x_grid,
      color = colors ! (i mod 20),
      linestyle = line_styles ! ((i div 10) mod 4),
      linewidth = (if i < 6 then 2.5 else 1.8),
      alpha = (if i < 6 then 0.9 else 0.7),
      label = label_of t\<rparr>"

definition poly_of :: "nat \<Rightarrow> team \<Rightarrow> poly" where
  "poly_of i t =
     \<lparr>poly_xdata = x_grid,
      poly_ydata = map (\<lambda>x. pdf_scaled x (mean_elo t) (std_dev t)) x_grid,
      poly_alpha = 0.1,
      poly_color = colors ! (i mod 20)\<rparr>"

subsection \<open>The tallest rendered peak\<close>


subsection \<open>The script as a transition system\<close>







section \<open>Properties of the density\<close>

lemma norm_pdf_spec:
  assumes "0 < s"
  shows "norm_pdf x m s = Fin (spec_pdf x m s)"
proof -
  have "((x - m) / s)\<^sup>2 / 2 = (x - m)\<^sup>2 / (2 * s\<^sup>2)"
    by (simp add: power_divide)
  then have "- (((x - m) / s)\<^sup>2) / 2 = - ((x - m)\<^sup>2) / (2 * s\<^sup>2)"
    by simp
  then show ?thesis
    using assms by (simp add: norm_pdf_def spec_pdf_def mult.commute)
qed

lemma spec_pdf_peak:
  assumes "0 < s"
  shows "spec_pdf m m s = 1 / (s * sqrt (2 * pi))"
  by (simp add: spec_pdf_def)

lemma spec_pdf_le_peak:
  assumes "0 < s"
  shows "spec_pdf x m s \<le> spec_pdf m m s"
proof -
  have "- ((x - m)\<^sup>2) / (2 * s\<^sup>2) \<le> 0"
    using assms by (simp add: divide_nonpos_pos)
  then have "exp (- ((x - m)\<^sup>2) / (2 * s\<^sup>2)) \<le> 1"
    by simp
  moreover have "0 < s * sqrt (2 * pi)"
    using assms by simp
  ultimately have "exp (- ((x - m)\<^sup>2) / (2 * s\<^sup>2)) / (s * sqrt (2 * pi))
      \<le> 1 / (s * sqrt (2 * pi))"
    by (rule divide_right_mono[OF _ less_imp_le])
  then show ?thesis
    by (simp add: spec_pdf_def)
qed


lemma x_grid_length: "length x_grid = 500"
  by (simp add: x_grid_def linspace_def)

lemma x_grid_nth:
  assumes "j < 500"
  shows "x_grid ! j = 1200 + real j * (1400 / 499)"
  using assms by (simp add: x_grid_def linspace_def)

lemma x_grid_first: "1200 \<in> set x_grid"
proof -
  have "x_grid ! 0 \<in> set x_grid"
    by (rule nth_mem) (simp add: x_grid_length)
  then show ?thesis
    by (simp add: x_grid_nth)
qed

section \<open>What the loop builds\<close>

lemma colors_length: "length colors = 20"
  by (simp add: colors_def)

lemma line_styles_length: "length line_styles = 4"
  by (simp add: line_styles_def)

lemma plot_team_eq:
  "plot_team i t fig =
     fig\<lparr>lines := lines fig @ [line_of i t],
         collections := collections fig @ (if i < 3 then [poly_of i t] else [])\<rparr>"
  by (simp add: plot_team_def line_of_def poly_of_def colors_length line_styles_length Let_def)

lemma plot_teams_snoc:
  "plot_teams i (ts @ [t]) fig = plot_team (i + length ts) t (plot_teams i ts fig)"
  by (induction ts arbitrary: i fig) simp_all

lemma plot_teams_fields:
  "lines (plot_teams 0 ts subplots) = map2 line_of [0..<length ts] ts
 \<and> collections (plot_teams 0 ts subplots) = take 3 (map2 poly_of [0..<length ts] ts)
 \<and> xlim (plot_teams 0 ts subplots) = (0, 1)
 \<and> ylim (plot_teams 0 ts subplots) = (0, 1)
 \<and> saved (plot_teams 0 ts subplots) = None
 \<and> stdout (plot_teams 0 ts subplots) = []"
proof (induction ts rule: rev_induct)
  case Nil
  show ?case by (simp add: subplots_def)
next
  case (snoc t ts)
  then show ?case
    by (simp add: plot_teams_snoc plot_team_eq)
qed


lemma main_fields:
  assumes "main get_ylim teams = Inr fig"
  shows "lines fig = map2 line_of [0..<length teams] teams"
    and "collections fig = take 3 (map2 poly_of [0..<length teams] teams)"
    and "xlim fig = (1200, 2600)"
    and "ylim fig =
           (0, snd (get_ylim ((plot_teams 0 teams subplots)\<lparr>xlim := (1200, 2600)\<rparr>)) * 1.05)"
    and "saved fig = Some ''elo_distributions.png''"
    and "stdout fig = [''Saved elo_distributions.png'']"
  using assms plot_teams_fields [of teams]
  by (auto simp add: main_def savefig_def set_limits_def Let_def)

lemma line_nth:
  assumes "main get_ylim teams = Inr fig" and "i < length teams"
  shows "lines fig ! i = line_of i (teams ! i)"
  using assms by (simp add: main_fields(1))

lemma poly_nth:
  assumes "main get_ylim teams = Inr fig" and "i < length teams" and "i < 3"
  shows "collections fig ! i = poly_of i (teams ! i)"
  using assms by (simp add: main_fields(2))

lemma leading_count:
  "length (filter (\<lambda>l. linewidth l = 2.5 \<and> alpha l = 0.9)
     (map2 line_of [0..<length ts] ts)) = min (length ts) 6"
  by (induction ts rule: rev_induct) (simp_all add: line_of_def)

lemma colors_distinct: "distinct colors"
  by (simp add: colors_def)

lemma line_styles_distinct: "distinct line_styles"
  by (simp add: line_styles_def)

section \<open>Curves, data interval and default limits\<close>

lemma pdf_scaled_nan:
  assumes "s \<le> 0"
  shows "pdf_scaled x m s = NaN"
  using assms by (simp add: pdf_scaled_def norm_pdf_def)


lemma fin_values_NaN: "fin_values (replicate n NaN) = []"
  by (induction n) (simp_all add: fin_values_def)

lemma curve_nan:
  assumes "std_dev t \<le> 0"
  shows "ydata (line_of i t) = replicate 500 NaN"
  using assms by (simp add: line_of_def pdf_scaled_nan map_replicate_const x_grid_length)


















section \<open>Literal replacement and the label\<close>

lemma replace_skip:
  assumes "old \<noteq> []" and "\<not> prefix old (c # cs)"
  shows "replace (c # cs) old new = c # replace cs old new"
  using assms by (simp only: replace.simps if_False)


lemma replace_absent:
  assumes "old \<noteq> []" and "\<not> sublist old s"
  shows "replace s old new = s"
  using assms
proof (induction s)
  case Nil
  then show ?case by (simp only: replace.simps if_False)
next
  case (Cons c cs)
  have both: "\<not> prefix old (c # cs) \<and> \<not> sublist old cs"
    using Cons.prems(2) by (simp only: sublist_Cons_right de_Morgan_disj simp_thms)
  then have np: "\<not> prefix old (c # cs)"
    by (rule conjunct1)
  have "\<not> sublist old cs"
    using both by (rule conjunct2)
  then have "replace cs old new = cs"
    using Cons.prems(1) by (rule Cons.IH[rotated])
  then show ?case
    by (simp only: replace_skip[OF Cons.prems(1) np])
qed


lemma replace_first_word:
  assumes "CHR '' '' \<notin> set base" and "old \<noteq> []" and "hd old = CHR '' ''"
  shows "replace (base @ r) old new = base @ replace r old new"
  using assms
proof (induction base)
  case Nil
  show ?case by (simp only: append_Nil)
next
  case (Cons c cs)
  obtain a as where old: "old = a # as"
    using Cons.prems(2) by (cases old) simp_all
  have "a = CHR '' ''"
    using Cons.prems(3) unfolding old by simp
  moreover have "c \<noteq> CHR '' ''" and cs: "CHR '' '' \<notin> set cs"
    using Cons.prems(1) by auto
  ultimately have "c \<noteq> a"
    by simp
  then have np: "\<not> prefix old (c # (cs @ r))"
    unfolding old by simp
  have "replace (cs @ r) old new = cs @ replace r old new"
    using cs Cons.prems(2,3) by (rule Cons.IH)
  then show ?case
    by (simp only: append_Cons replace_skip[OF Cons.prems(2) np])
qed


lemma foldl_replace_absent:
  assumes "\<forall>tok \<in> set toks. tok \<noteq> [] \<and> \<not> sublist tok n"
  shows "foldl (\<lambda>s tok. replace s tok []) n toks = n"
  using assms by (induction toks) (simp_all add: replace_absent)

lemma foldl_replace_first_word:
  assumes "CHR '' '' \<notin> set base" and "\<forall>tok \<in> set toks. tok \<noteq> [] \<and> hd tok = CHR '' ''"
  shows "foldl (\<lambda>s tok. replace s tok []) (base @ r) toks
       = base @ foldl (\<lambda>s tok. replace s tok []) r toks"
  using assms by (induction toks arbitrary: r) (simp_all add: replace_first_word)

lemma suffixes_space: "\<forall>tok \<in> set suffixes. tok \<noteq> [] \<and> hd tok = CHR '' ''"
  by (simp add: suffixes_def)

lemma short_name_absent:
  assumes "\<forall>tok \<in> set suffixes. \<not> sublist tok n"
  shows "short_name n = n"
proof -
  have "\<forall>tok \<in> set suffixes. tok \<noteq> [] \<and> \<not> sublist tok n"
    using assms suffixes_space by blast
  then show ?thesis
    unfolding short_name_def by (rule foldl_replace_absent)
qed

lemma short_name_first_word:
  assumes "CHR '' '' \<notin> set base"
  shows "short_name (base @ r) = base @ short_name r"
  unfolding short_name_def using assms suffixes_space by (rule foldl_replace_first_word)

lemma short_name_tokens: "list_all (\<lambda>tok. short_name tok = []) suffixes"
  by code_simp

lemma short_name_token:
  assumes "tok \<in> set suffixes"
  shows "short_name tok = []"
  using assms short_name_tokens by (simp only: list_all_iff)

lemma digit_chars: "list_all (\<lambda>d. digit_char d \<noteq> CHR '' '') [0..<10]"
  by code_simp

lemma digit_char_no_space:
  assumes "d < 10"
  shows "digit_char d \<noteq> CHR '' ''"
proof -
  have "\<forall>d \<in> set [0..<10]. digit_char d \<noteq> CHR '' ''"
    using digit_chars by (simp only: list_all_iff)
  moreover have "d \<in> set [0..<10]"
    using assms by simp
  ultimately show ?thesis
    by (rule bspec)
qed

lemma digits_no_space: "CHR '' '' \<notin> set (digits n)"
proof (induction n rule: digits.induct)
  case (1 n)
  show ?case
  proof (cases "n < 10")
    case True
    then have "digits n = [digit_char n]"
      by (subst digits.simps) simp
    then show ?thesis
      using digit_char_no_space[OF True] by simp
  next
    case False
    then have "digits n = digits (n div 10) @ [digit_char (n mod 10)]"
      by (subst digits.simps) simp
    moreover have "digit_char (n mod 10) \<noteq> CHR '' ''"
      by (rule digit_char_no_space) simp
    ultimately show ?thesis
      using "1.IH"[OF False] by simp
  qed
qed

lemma str_int_no_space: "CHR '' '' \<notin> set (str_int k)"
  using digits_no_space by (simp add: str_int_def)

lemma sublist_single_space:
  assumes a: "x \<notin> set as" and b: "x \<notin> set bs" and s: "sublist (x # w) (as @ x # bs)"
  shows "prefix w bs"
proof -
  from s obtain ps ss where "as @ x # bs = ps @ (x # w) @ ss"
    unfolding sublist_def by blast
  then have "as @ x # bs = ps @ x # (w @ ss)"
    by simp
  then have "as = ps \<and> bs = w @ ss"
    using append_Cons_eq_iff[OF a b] by blast
  then show ?thesis
    by simp
qed


lemma label_tokens:
  assumes base: "CHR '' '' \<notin> set base"
    and np: "\<forall>tok \<in> set suffixes. \<not> prefix (tl tok) base"
    and tok: "tok \<in> set suffixes"
  shows "\<not> sublist tok (str_int k @ ''. '' @ base)"
proof
  assume s: "sublist tok (str_int k @ ''. '' @ base)"
  have "tok \<noteq> [] \<and> hd tok = CHR '' ''"
    using suffixes_space tok by (rule bspec)
  then have t: "tok = CHR '' '' # tl tok"
    by (cases tok) simp_all
  have a: "CHR '' '' \<notin> set (str_int k @ ''.'')"
    using str_int_no_space by simp
  have "sublist (CHR '' '' # tl tok) ((str_int k @ ''.'') @ CHR '' '' # base)"
    using s t by simp
  with a base have "prefix (tl tok) base"
    by (rule sublist_single_space)
  then show False
    using np tok by blast
qed

lemma no_space_no_token:
  assumes "CHR '' '' \<notin> set base" and "tok \<in> set suffixes"
  shows "\<not> sublist tok base"
proof
  assume "sublist tok base"
  then have "set tok \<subseteq> set base"
    by (rule set_mono_sublist)
  moreover have "tok \<noteq> [] \<and> hd tok = CHR '' ''"
    using suffixes_space assms(2) by (rule bspec)
  then have "CHR '' '' \<in> set tok"
    by (cases tok) simp_all
  ultimately show False
    using assms(1) by blast
qed

section \<open>Runs of the transition system\<close>






section \<open>The claims\<close>



text \<open>
  C8. For a record with a positive spread, the density at the mean is
  \<open>1 / (spread * sqrt (2 * pi))\<close>, and the density at no point of the sampled grid
  exceeds it.
\<close>

theorem peak_at_mean:
  assumes "0 < s"
  shows "norm_pdf m m s = Fin (1 / (s * sqrt (2 * pi)))
       \<and> (\<forall>x \<in> set x_grid. fle (norm_pdf x m s) (norm_pdf m m s))"
proof
  show "norm_pdf m m s = Fin (1 / (s * sqrt (2 * pi)))"
    using assms by (simp add: norm_pdf_spec spec_pdf_peak)
  show "\<forall>x \<in> set x_grid. fle (norm_pdf x m s) (norm_pdf m m s)"
    using assms by (simp add: norm_pdf_spec spec_pdf_le_peak)
qed

theorem peak_at_mean_witness:
  "(0::real) < 80 \<and> 1200 \<in> set x_grid
   \<and> norm_pdf 1800 1800 80 = Fin (1 / (80 * sqrt (2 * pi)))
   \<and> fle (norm_pdf 1200 1800 80) (norm_pdf 1800 1800 80)"
proof -
  have pos: "(0::real) < 80"
    by simp
  from peak_at_mean [OF pos, of 1800] x_grid_first pos show ?thesis
    by blast
qed

text \<open>
  C5. Of \<open>N\<close> records, exactly \<open>min N 3\<close> curves get a shaded area and exactly \<open>min N 6\<close>
  curves get the leading treatment (line width 2.5 and opacity 0.9, against 1.8 and 0.7);
  the treated curves are the first ones in sequence order, and the shaded area \<open>i\<close> is
  the area under curve \<open>i\<close>.
\<close>

theorem leading_treatment_counts:
  assumes "main get_ylim teams = Inr fig"
  shows "length (lines fig) = length teams
       \<and> length (collections fig) = min (length teams) 3
       \<and> length (filter (\<lambda>l. linewidth l = 2.5 \<and> alpha l = 0.9) (lines fig))
           = min (length teams) 6
       \<and> (\<forall>i < length teams.
            (linewidth (lines fig ! i), alpha (lines fig ! i))
              = (if i < 6 then (2.5, 0.9) else (1.8, 0.7)))
       \<and> (\<forall>i < min (length teams) 3.
            poly_xdata (collections fig ! i) = xdata (lines fig ! i)
          \<and> poly_ydata (collections fig ! i) = ydata (lines fig ! i)
          \<and> poly_color (collections fig ! i) = color (lines fig ! i)
          \<and> poly_alpha (collections fig ! i) = 0.1)"
proof (intro conjI allI impI)
  show "length (lines fig) = length teams"
    by (simp add: main_fields(1)[OF assms])
  show "length (collections fig) = min (length teams) 3"
    by (simp add: main_fields(2)[OF assms])
  show "length (filter (\<lambda>l. linewidth l = 2.5 \<and> alpha l = 0.9) (lines fig))
      = min (length teams) 6"
    by (simp only: main_fields(1)[OF assms] leading_count)
next
  fix i assume "i < length teams"
  then show "(linewidth (lines fig ! i), alpha (lines fig ! i))
      = (if i < 6 then (2.5, 0.9) else (1.8, 0.7))"
    by (simp add: line_nth[OF assms] line_of_def)
next
  fix i assume "i < min (length teams) 3"
  then have i: "i < length teams" "i < 3"
    by simp_all
  show "poly_xdata (collections fig ! i) = xdata (lines fig ! i)"
    by (simp add: line_nth[OF assms i(1)] poly_nth[OF assms i] line_of_def poly_of_def)
  show "poly_ydata (collections fig ! i) = ydata (lines fig ! i)"
    by (simp add: line_nth[OF assms i(1)] poly_nth[OF assms i] line_of_def poly_of_def)
  show "poly_color (collections fig ! i) = color (lines fig ! i)"
    by (simp add: line_nth[OF assms i(1)] poly_nth[OF assms i] line_of_def poly_of_def)
  show "poly_alpha (collections fig ! i) = 0.1"
    by (simp add: poly_nth[OF assms i] poly_of_def)
qed

theorem leading_treatment_counts_witness:
  "\<exists>fig.
     main default_get_ylim
       (replicate 7 \<lparr>rank = 1, team_name = ''Duke Blue Devils'', mean_elo = 1800, std_dev = 80\<rparr>)
       = Inr fig
   \<and> length (lines fig) = 7 \<and> length (collections fig) = 3
   \<and> length (filter (\<lambda>l. linewidth l = 2.5 \<and> alpha l = 0.9) (lines fig)) = 6
   \<and> (linewidth (lines fig ! 5), alpha (lines fig ! 5)) = (2.5, 0.9)
   \<and> (linewidth (lines fig ! 6), alpha (lines fig ! 6)) = (1.8, 0.7)
   \<and> poly_ydata (collections fig ! 2) = ydata (lines fig ! 2)
   \<and> poly_color (collections fig ! 2) = color (lines fig ! 2)"
proof -
  let ?ts = "replicate 7
    \<lparr>rank = 1, team_name = ''Duke Blue Devils'', mean_elo = 1800, std_dev = 80\<rparr>"
  obtain fig where m: "main default_get_ylim ?ts = Inr fig"
    by (simp add: main_def)
  note h = leading_treatment_counts [OF m]
  have "length (lines fig) = 7" and "length (collections fig) = 3"
    and "length (filter (\<lambda>l. linewidth l = 2.5 \<and> alpha l = 0.9) (lines fig)) = 6"
    using h by simp_all
  moreover have "(linewidth (lines fig ! 5), alpha (lines fig ! 5)) = (2.5, 0.9)"
    and "(linewidth (lines fig ! 6), alpha (lines fig ! 6)) = (1.8, 0.7)"
    using h by simp_all
  moreover have "poly_ydata (collections fig ! 2) = ydata (lines fig ! 2)"
    and "poly_color (collections fig ! 2) = color (lines fig ! 2)"
    using h by simp_all
  ultimately show ?thesis
    using m by blast
qed

text \<open>
  C7. The colour of curve \<open>i\<close> is \<open>palette[i mod 20]\<close> and its line style is
  \<open>styles[(i div 10) mod 4]\<close>. The colour repeats with period 20, the line style with
  period 40, and the ten curves of one block share one line style. Since neither table has
  a repeated entry, two curves have the same colour exactly when their indices agree
  modulo 20, and the same line style exactly when their blocks agree modulo 4.
\<close>

theorem style_periodic:
  assumes "main get_ylim teams = Inr fig"
  shows "length colors = 20 \<and> length line_styles = 4
       \<and> (\<forall>i < length teams.
            color (lines fig ! i) = colors ! (i mod 20)
          \<and> linestyle (lines fig ! i) = line_styles ! ((i div 10) mod 4))
       \<and> (\<forall>i. i + 20 < length teams \<longrightarrow>
            color (lines fig ! (i + 20)) = color (lines fig ! i))
       \<and> (\<forall>i. i + 40 < length teams \<longrightarrow>
            linestyle (lines fig ! (i + 40)) = linestyle (lines fig ! i))
       \<and> (\<forall>i j. i < length teams \<longrightarrow> j < length teams \<longrightarrow>
            (color (lines fig ! i) = color (lines fig ! j)) = (i mod 20 = j mod 20)
          \<and> (linestyle (lines fig ! i) = linestyle (lines fig ! j))
              = ((i div 10) mod 4 = (j div 10) mod 4))"
proof -
  have c: "color (lines fig ! i) = colors ! (i mod 20)" if "i < length teams" for i
    using that by (simp add: line_nth[OF assms] line_of_def)
  have l: "linestyle (lines fig ! i) = line_styles ! ((i div 10) mod 4)"
    if "i < length teams" for i
    using that by (simp add: line_nth[OF assms] line_of_def)
  have ceq: "(colors ! (i mod 20) = colors ! (j mod 20)) = (i mod 20 = j mod 20)" for i j
    by (rule nth_eq_iff_index_eq[OF colors_distinct]) (simp_all add: colors_length)
  have leq: "(line_styles ! ((i div 10) mod 4) = line_styles ! ((j div 10) mod 4))
      = ((i div 10) mod 4 = (j div 10) mod 4)" for i j
    by (rule nth_eq_iff_index_eq[OF line_styles_distinct]) (simp_all add: line_styles_length)
  have "(i + 4 * 10) div 10 = i div 10 + 4" for i :: nat
    by (simp only: div_mult_self1 div_mult_self2 div_mult_self3 div_mult_self4)
  then have p40: "((i + 40) div 10) mod 4 = (i div 10) mod 4" for i :: nat
    by simp
  show ?thesis
  proof (intro conjI allI impI)
    show "length colors = 20"
      by (rule colors_length)
    show "length line_styles = 4"
      by (rule line_styles_length)
  next
    fix i assume "i < length teams"
    then show "color (lines fig ! i) = colors ! (i mod 20)"
      and "linestyle (lines fig ! i) = line_styles ! ((i div 10) mod 4)"
      by (rule c, rule l)
  next
    fix i assume "i + 20 < length teams"
    then show "color (lines fig ! (i + 20)) = color (lines fig ! i)"
      by (simp add: c)
  next
    fix i assume "i + 40 < length teams"
    then show "linestyle (lines fig ! (i + 40)) = linestyle (lines fig ! i)"
      by (simp add: l p40)
  next
    fix i j assume "i < length teams" and "j < length teams"
    then show "(color (lines fig ! i) = color (lines fig ! j)) = (i mod 20 = j mod 20)"
      and "(linestyle (lines fig ! i) = linestyle (lines fig ! j))
              = ((i div 10) mod 4 = (j div 10) mod 4)"
      by (simp_all only: c l ceq leq)
  qed
qed

theorem style_periodic_witness:
  "\<exists>fig.
     main default_get_ylim
       (replicate 41 \<lparr>rank = 1, team_name = ''Duke Blue Devils'', mean_elo = 1800, std_dev = 80\<rparr>)
       = Inr fig
   \<and> color (lines fig ! 23) = colors ! 3
   \<and> linestyle (lines fig ! 23) = line_styles ! 2
   \<and> color (lines fig ! 20) = color (lines fig ! 0)
   \<and> linestyle (lines fig ! 40) = linestyle (lines fig ! 0)
   \<and> linestyle (lines fig ! 10) = linestyle (lines fig ! 19)
   \<and> linestyle (lines fig ! 9) \<noteq> linestyle (lines fig ! 10)
   \<and> color (lines fig ! 0) \<noteq> color (lines fig ! 10)"
proof -
  let ?ts = "replicate 41
    \<lparr>rank = 1, team_name = ''Duke Blue Devils'', mean_elo = 1800, std_dev = 80\<rparr>"
  obtain fig where m: "main default_get_ylim ?ts = Inr fig"
    by (simp add: main_def)
  note h = style_periodic [OF m]
  note f = h [THEN conjunct2, THEN conjunct2, THEN conjunct2, THEN conjunct2,
      THEN conjunct2, rule_format]
  have "color (lines fig ! 23) = colors ! 3"
    and "linestyle (lines fig ! 23) = line_styles ! 2"
    using h by simp_all
  moreover have "color (lines fig ! (0 + 20)) = color (lines fig ! 0)"
    and "linestyle (lines fig ! (0 + 40)) = linestyle (lines fig ! 0)"
    using h by simp_all
  moreover have "linestyle (lines fig ! 10) = linestyle (lines fig ! 19)"
    and "linestyle (lines fig ! 9) \<noteq> linestyle (lines fig ! 10)"
    and "color (lines fig ! 0) \<noteq> color (lines fig ! 10)"
    using f [of 10 19] f [of 9 10] f [of 0 10] by simp_all
  ultimately show ?thesis
    using m by auto
qed

text \<open>
  C10. Colour, line style, line width, opacity and shading of curve \<open>i\<close> are the same for
  any two inputs of the same length: they depend on the position alone. The \<open>rank\<close>
  field appears in the label only: inputs that differ in nothing but their ranks give
  the same lines up to the labels and the same shaded areas.
\<close>

theorem emphasis_follows_position:
  assumes "main get_ylim teams = Inr fig" and "main get_ylim' teams' = Inr fig'"
    and "length teams' = length teams"
  shows "(\<forall>i < length teams.
            color (lines fig' ! i) = color (lines fig ! i)
          \<and> linestyle (lines fig' ! i) = linestyle (lines fig ! i)
          \<and> linewidth (lines fig' ! i) = linewidth (lines fig ! i)
          \<and> alpha (lines fig' ! i) = alpha (lines fig ! i))
       \<and> length (collections fig') = length (collections fig)
       \<and> (\<forall>i < length (collections fig).
            poly_color (collections fig' ! i) = poly_color (collections fig ! i)
          \<and> poly_alpha (collections fig' ! i) = poly_alpha (collections fig ! i))
       \<and> (\<forall>i < length teams.
            label (lines fig ! i)
              = str_int (rank (teams ! i)) @ ''. '' @ short_name (team_name (teams ! i)))
       \<and> (map (\<lambda>t. t\<lparr>rank := 0\<rparr>) teams' = map (\<lambda>t. t\<lparr>rank := 0\<rparr>) teams \<longrightarrow>
            map (\<lambda>l. l\<lparr>label := []\<rparr>) (lines fig') = map (\<lambda>l. l\<lparr>label := []\<rparr>) (lines fig)
          \<and> collections fig' = collections fig)"
proof (intro conjI allI impI)
  fix i assume i: "i < length teams"
  then have i': "i < length teams'"
    using assms(3) by simp
  show "color (lines fig' ! i) = color (lines fig ! i)"
    and "linestyle (lines fig' ! i) = linestyle (lines fig ! i)"
    and "linewidth (lines fig' ! i) = linewidth (lines fig ! i)"
    and "alpha (lines fig' ! i) = alpha (lines fig ! i)"
    by (simp_all add: line_nth[OF assms(1) i] line_nth[OF assms(2) i'] line_of_def)
  show "label (lines fig ! i)
      = str_int (rank (teams ! i)) @ ''. '' @ short_name (team_name (teams ! i))"
    by (simp add: line_nth[OF assms(1) i] line_of_def label_of_def)
next
  show len: "length (collections fig') = length (collections fig)"
    by (simp add: main_fields(2)[OF assms(1)] main_fields(2)[OF assms(2)] assms(3))
  fix i assume "i < length (collections fig)"
  then have i: "i < length teams" "i < 3" and i': "i < length teams'" "i < 3"
    using assms(3) by (simp_all add: main_fields(2)[OF assms(1)])
  show "poly_color (collections fig' ! i) = poly_color (collections fig ! i)"
    and "poly_alpha (collections fig' ! i) = poly_alpha (collections fig ! i)"
    by (simp_all add: poly_nth[OF assms(1) i] poly_nth[OF assms(2) i'] poly_of_def)
next
  assume eq: "map (\<lambda>t. t\<lparr>rank := 0\<rparr>) teams' = map (\<lambda>t. t\<lparr>rank := 0\<rparr>) teams"
  have same: "mean_elo (teams' ! i) = mean_elo (teams ! i)
      \<and> std_dev (teams' ! i) = std_dev (teams ! i)
      \<and> team_name (teams' ! i) = team_name (teams ! i)" if "i < length teams" for i
  proof -
    have "map (\<lambda>t. t\<lparr>rank := 0\<rparr>) teams' ! i = map (\<lambda>t. t\<lparr>rank := 0\<rparr>) teams ! i"
      by (simp only: eq)
    then have e: "(teams' ! i)\<lparr>rank := 0\<rparr> = (teams ! i)\<lparr>rank := 0\<rparr>"
      using that assms(3) by simp
    have "mean_elo ((teams' ! i)\<lparr>rank := 0\<rparr>) = mean_elo ((teams ! i)\<lparr>rank := 0\<rparr>)"
      and "std_dev ((teams' ! i)\<lparr>rank := 0\<rparr>) = std_dev ((teams ! i)\<lparr>rank := 0\<rparr>)"
      and "team_name ((teams' ! i)\<lparr>rank := 0\<rparr>) = team_name ((teams ! i)\<lparr>rank := 0\<rparr>)"
      by (simp_all only: e)
    then show ?thesis
      by simp
  qed
  show "map (\<lambda>l. l\<lparr>label := []\<rparr>) (lines fig') = map (\<lambda>l. l\<lparr>label := []\<rparr>) (lines fig)"
  proof (rule nth_equalityI)
    show "length (map (\<lambda>l. l\<lparr>label := []\<rparr>) (lines fig'))
        = length (map (\<lambda>l. l\<lparr>label := []\<rparr>) (lines fig))"
      by (simp add: main_fields(1)[OF assms(1)] main_fields(1)[OF assms(2)] assms(3))
  next
    fix i assume "i < length (map (\<lambda>l. l\<lparr>label := []\<rparr>) (lines fig'))"
    then have i: "i < length teams" and i': "i < length teams'"
      using assms(3) by (simp_all add: main_fields(1)[OF assms(2)])
    have "(lines fig' ! i)\<lparr>label := []\<rparr> = (lines fig ! i)\<lparr>label := []\<rparr>"
      using same[OF i]
      by (simp add: line_nth[OF assms(1) i] line_nth[OF assms(2) i'] line_of_def)
    then show "map (\<lambda>l. l\<lparr>label := []\<rparr>) (lines fig') ! i
        = map (\<lambda>l. l\<lparr>label := []\<rparr>) (lines fig) ! i"
      using i i' by (simp add: main_fields(1)[OF assms(1)] main_fields(1)[OF assms(2)])
  qed
  show "collections fig' = collections fig"
  proof (rule nth_equalityI)
    show "length (collections fig') = length (collections fig)"
      by (simp add: main_fields(2)[OF assms(1)] main_fields(2)[OF assms(2)] assms(3))
  next
    fix i assume "i < length (collections fig')"
    then have i: "i < length teams" "i < 3" and i': "i < length teams'" "i < 3"
      using assms(3) by (simp_all add: main_fields(2)[OF assms(2)])
    show "collections fig' ! i = collections fig ! i"
      using same[OF i(1)]
      by (simp add: poly_nth[OF assms(1) i] poly_nth[OF assms(2) i'] poly_of_def)
  qed
qed



theorem emphasis_follows_position_witness:
  "\<exists>fig fig'.
     main default_get_ylim
       [\<lparr>rank = 7, team_name = ''Duke Blue Devils'', mean_elo = 1800, std_dev = 80\<rparr>,
        \<lparr>rank = 1, team_name = ''Houston Cougars'', mean_elo = 1750, std_dev = 90\<rparr>] = Inr fig
   \<and> main default_get_ylim
       [\<lparr>rank = 1, team_name = ''Duke Blue Devils'', mean_elo = 1800, std_dev = 80\<rparr>,
        \<lparr>rank = 2, team_name = ''Houston Cougars'', mean_elo = 1750, std_dev = 90\<rparr>] = Inr fig'
   \<and> linewidth (lines fig' ! 0) = linewidth (lines fig ! 0)
   \<and> color (lines fig' ! 1) = color (lines fig ! 1)
   \<and> length (collections fig') = length (collections fig)
   \<and> map (\<lambda>l. l\<lparr>label := []\<rparr>) (lines fig') = map (\<lambda>l. l\<lparr>label := []\<rparr>) (lines fig)
   \<and> collections fig' = collections fig
   \<and> label (lines fig ! 0) = str_int 7 @ ''. '' @ short_name ''Duke Blue Devils''"
proof -
  let ?ts = "[\<lparr>rank = 7, team_name = ''Duke Blue Devils'', mean_elo = 1800, std_dev = 80\<rparr>,
    \<lparr>rank = 1, team_name = ''Houston Cougars'', mean_elo = 1750, std_dev = 90\<rparr>]"
  let ?ts' = "[\<lparr>rank = 1, team_name = ''Duke Blue Devils'', mean_elo = 1800, std_dev = 80\<rparr>,
    \<lparr>rank = 2, team_name = ''Houston Cougars'', mean_elo = 1750, std_dev = 90\<rparr>]"
  obtain fig where m: "main default_get_ylim ?ts = Inr fig"
    by (simp add: main_def)
  obtain fig' where m': "main default_get_ylim ?ts' = Inr fig'"
    by (simp add: main_def)
  have len: "length ?ts' = length ?ts"
    by simp
  have same: "map (\<lambda>t. t\<lparr>rank := 0\<rparr>) ?ts' = map (\<lambda>t. t\<lparr>rank := 0\<rparr>) ?ts"
    by simp
  note h = emphasis_follows_position [OF m m' len]
  have "linewidth (lines fig' ! 0) = linewidth (lines fig ! 0)"
    and "color (lines fig' ! 1) = color (lines fig ! 1)"
    and "length (collections fig') = length (collections fig)"
    using h by simp_all
  moreover have "map (\<lambda>l. l\<lparr>label := []\<rparr>) (lines fig') = map (\<lambda>l. l\<lparr>label := []\<rparr>) (lines fig)"
    and "collections fig' = collections fig"
    using h same by blast+
  moreover have "label (lines fig ! 0) = str_int 7 @ ''. '' @ short_name ''Duke Blue Devils''"
    using h by simp
  ultimately show ?thesis
    using m m' by blast
qed

text \<open>
  C2, as amended. On an empty input the script signals no error: the loop body never
  runs, the limits are set from what the empty axes report, and the figure is saved and
  the confirmation printed.
\<close>

theorem empty_input_renders:
  "main get_ylim [] =
     Inr \<lparr>lines = [], collections = [], xlim = (1200, 2600),
          ylim = (0, snd (get_ylim (subplots\<lparr>xlim := (1200, 2600)\<rparr>)) * 1.05),
          saved = Some ''elo_distributions.png'',
          stdout = [''Saved elo_distributions.png'']\<rparr>"
  by (simp add: main_def savefig_def set_limits_def subplots_def Let_def)

text \<open>
  The claim as stated (an \<open>EmptyInputError\<close> and no image) fails: with the library's
  default limits the run on the empty list ends with the file saved.
\<close>

theorem empty_input_counterexample:
  "main default_get_ylim [] \<noteq> Inl EmptyInputError
 \<and> main default_get_ylim [] =
     Inr \<lparr>lines = [], collections = [], xlim = (1200, 2600), ylim = (0, 1.05),
          saved = Some ''elo_distributions.png'',
          stdout = [''Saved elo_distributions.png'']\<rparr>"
  by (simp add: main_def savefig_def set_limits_def subplots_def default_get_ylim_def Let_def)

text \<open>
  C3, as amended. A record whose spread is not positive makes the script signal no error:
  the density of that record is \<open>nan\<close> at every grid point, the curve is drawn from these
  values, and the script goes on to save the figure and print the confirmation.
\<close>

theorem nonpositive_spread_renders:
  assumes "i < length teams" and "std_dev (teams ! i) \<le> 0"
  shows "\<exists>fig. main get_ylim teams = Inr fig
       \<and> ydata (lines fig ! i) = replicate 500 NaN
       \<and> saved fig = Some ''elo_distributions.png''
       \<and> stdout fig = [''Saved elo_distributions.png'']"
proof -
  obtain fig where m: "main get_ylim teams = Inr fig"
    by (simp add: main_def)
  have "ydata (lines fig ! i) = replicate 500 NaN"
    using assms by (simp add: line_nth[OF m] curve_nan)
  then show ?thesis
    using m main_fields(5,6)[OF m] by blast
qed

theorem nonpositive_spread_renders_witness:
  "\<exists>fig. main default_get_ylim
       [\<lparr>rank = 1, team_name = ''Duke Blue Devils'', mean_elo = 1800, std_dev = 0\<rparr>] = Inr fig
   \<and> ydata (lines fig ! 0) = replicate 500 NaN
   \<and> saved fig = Some ''elo_distributions.png''"
proof -
  let ?ts = "[\<lparr>rank = 1, team_name = ''Duke Blue Devils'', mean_elo = 1800, std_dev = 0\<rparr>]"
  have "0 < length ?ts" and "std_dev (?ts ! 0) \<le> 0"
    by simp_all
  from nonpositive_spread_renders [OF this, of default_get_ylim] show ?thesis
    by blast
qed

text \<open>
  The claim as stated (an \<open>InvalidParameterError\<close> and no image) fails for one record with
  spread 0.
\<close>

theorem nonpositive_spread_counterexample:
  "main default_get_ylim
     [\<lparr>rank = 1, team_name = ''Duke Blue Devils'', mean_elo = 1800, std_dev = 0\<rparr>]
     \<noteq> Inl InvalidParameterError
 \<and> saved (projr (main default_get_ylim
     [\<lparr>rank = 1, team_name = ''Duke Blue Devils'', mean_elo = 1800, std_dev = 0\<rparr>]))
     = Some ''elo_distributions.png''
 \<and> ydata (hd (lines (projr (main default_get_ylim
     [\<lparr>rank = 1, team_name = ''Duke Blue Devils'', mean_elo = 1800, std_dev = 0\<rparr>]))))
     = replicate 500 NaN"
  by (simp add: main_def savefig_def set_limits_def subplots_def plot_team_eq curve_nan)





text \<open>
  C6, as amended. The legend label is \<open>"{rank}. {shortened_name}"\<close>, where the shortened
  name results from the sixteen literal replacements applied to the team name one after
  the other, in the order of the list. A name in which no token occurs is kept as it is.
  A name that is a word without a space followed by one token is shortened to that word,
  which then contains no token; if moreover no token, without its leading space, begins
  the word, then the label contains no token either.
\<close>

theorem label_composition:
  "label_of t = str_int (rank t) @ ''. '' @ short_name (team_name t)
 \<and> short_name (team_name t) = foldl (\<lambda>s tok. replace s tok []) (team_name t) suffixes
 \<and> ((\<forall>tok \<in> set suffixes. \<not> sublist tok (team_name t)) \<longrightarrow>
      short_name (team_name t) = team_name t)
 \<and> (\<forall>base tok.
      team_name t = base @ tok \<longrightarrow> CHR '' '' \<notin> set base \<longrightarrow> tok \<in> set suffixes \<longrightarrow>
        short_name (team_name t) = base
      \<and> (\<forall>tok' \<in> set suffixes. \<not> sublist tok' (short_name (team_name t)))
      \<and> ((\<forall>tok' \<in> set suffixes. \<not> prefix (tl tok') base) \<longrightarrow>
          (\<forall>tok' \<in> set suffixes. \<not> sublist tok' (label_of t))))"
proof (intro conjI allI impI)
  show "label_of t = str_int (rank t) @ ''. '' @ short_name (team_name t)"
    by (rule label_of_def)
  show "short_name (team_name t) = foldl (\<lambda>s tok. replace s tok []) (team_name t) suffixes"
    by (rule short_name_def)
next
  assume "\<forall>tok \<in> set suffixes. \<not> sublist tok (team_name t)"
  then show "short_name (team_name t) = team_name t"
    by (rule short_name_absent)
next
  fix base tok
  assume n: "team_name t = base @ tok" and b: "CHR '' '' \<notin> set base"
    and tok: "tok \<in> set suffixes"
  show sn: "short_name (team_name t) = base"
    unfolding n by (simp only: short_name_first_word[OF b] short_name_token[OF tok] append_Nil2)
  show "\<forall>tok' \<in> set suffixes. \<not> sublist tok' (short_name (team_name t))"
    unfolding sn using no_space_no_token[OF b] by blast
  assume np: "\<forall>tok' \<in> set suffixes. \<not> prefix (tl tok') base"
  show "\<forall>tok' \<in> set suffixes. \<not> sublist tok' (label_of t)"
    unfolding label_of_def sn using label_tokens[OF b np] by blast
qed

theorem label_composition_witness:
  "team_name \<lparr>rank = 3, team_name = ''Duke Blue Devils'', mean_elo = 1800, std_dev = 80\<rparr>
     = ''Duke'' @ '' Blue Devils''
 \<and> CHR '' '' \<notin> set ''Duke'' \<and> '' Blue Devils'' \<in> set suffixes
 \<and> short_name ''Duke Blue Devils'' = ''Duke''
 \<and> label_of \<lparr>rank = 3, team_name = ''Duke Blue Devils'', mean_elo = 1800, std_dev = 80\<rparr>
     = ''3. Duke''
 \<and> \<not> sublist '' Blue Devils''
     (label_of \<lparr>rank = 3, team_name = ''Duke Blue Devils'', mean_elo = 1800, std_dev = 80\<rparr>)"
proof -
  let ?t = "\<lparr>rank = 3, team_name = ''Duke Blue Devils'', mean_elo = 1800, std_dev = 80\<rparr>"
  have n: "team_name ?t = ''Duke'' @ '' Blue Devils''"
    by simp
  have b: "CHR '' '' \<notin> set ''Duke''"
    by simp
  have tok: "'' Blue Devils'' \<in> set suffixes"
    by (simp add: suffixes_def)
  have np: "\<forall>tok' \<in> set suffixes. \<not> prefix (tl tok') ''Duke''"
    by (simp add: suffixes_def)
  note h = label_composition [of ?t, THEN conjunct2, THEN conjunct2, THEN conjunct2,
      rule_format, OF n b tok]
  have sn: "short_name (team_name ?t) = ''Duke''"
    using h by (rule conjunct1)
  have "\<forall>tok' \<in> set suffixes. \<not> sublist tok' (label_of ?t)"
    using h np by blast
  then have nt: "\<not> sublist '' Blue Devils'' (label_of ?t)"
    using tok by (rule bspec)
  have lb: "label_of ?t = str_int 3 @ ''. '' @ short_name (team_name ?t)"
    using label_composition [of ?t] by simp
  have "str_int 3 = ''3''"
    by code_simp
  then have "label_of ?t = ''3. Duke''"
    unfolding lb sn by simp
  then show ?thesis
    using n b tok sn nt by simp
qed

text \<open>
  The claim as stated (the label never contains a token) fails: removing one token can
  join the two halves of another one that was removed earlier in the chain, and the
  separator of the label supplies the leading space of a token that begins the name.
\<close>

theorem label_counterexample:
  "'' Tigers'' \<in> set suffixes
 \<and> short_name ''Auburn Ti Owlsgers'' = ''Auburn Tigers''
 \<and> label_of \<lparr>rank = 8, team_name = ''Auburn Ti Owlsgers'', mean_elo = 1800, std_dev = 80\<rparr>
     = ''8. Auburn Tigers''
 \<and> sublist '' Tigers''
     (label_of \<lparr>rank = 8, team_name = ''Auburn Ti Owlsgers'', mean_elo = 1800, std_dev = 80\<rparr>)
 \<and> label_of \<lparr>rank = 1, team_name = ''Tigers'', mean_elo = 1800, std_dev = 80\<rparr> = ''1. Tigers''
 \<and> sublist '' Tigers''
     (label_of \<lparr>rank = 1, team_name = ''Tigers'', mean_elo = 1800, std_dev = 80\<rparr>)"
  by code_simp



end
